theory Spec2Isabelle
  imports Complex_Main "HOL-Library.Word" "HOL-Library.Sublist"
begin

section \<open>Data model of the sealing pipeline (src/utils/sealPdf.ts)\<close>

text \<open>
  JavaScript strings are modelled as \<open>string\<close>. An ASCII character is one \<open>char\<close>;
  the two other characters of the source's literals, the trade mark sign and the bullet,
  are written as their UTF-8 bytes. The source counts characters only in
  \<open>substring(0, 16)\<close> of a digest and in tests for the empty string.

  JavaScript numbers used as page coordinates are modelled as exact reals. Every
  vertical coordinate of the source is an A4 dimension minus integer constants, and the
  cursor comparisons of the source are never closer than 3 units to their threshold, so
  rounding does not decide them. Text widths are values of the font's measuring function,
  a parameter of the model, and are compared as reals.
\<close>

type_synonym byte = "8 word"

text \<open>One element of \<open>SealInput.evidence\<close>: \<open>{name: string; sha512: string}\<close>.\<close>

record Evidence =
  name :: string
  sha512 :: string

text \<open>\<open>type SealInput\<close>; the optional fields are options (\<open>None\<close> is \<open>undefined\<close>).\<close>

record SealInput =
  title :: string
  messagesHtml :: "string option"
  evidence :: "Evidence list"
  utcTimestamp :: string
  localTimestamp :: string
  appVersion :: string
  logoDataUrl :: "string option"

text \<open>The object literal \<open>qrPayload\<close> of \<open>makeSealedPdf\<close>.\<close>

record qr_payload =
  qr_sha512 :: "string list"
  qr_filenames :: "string list"
  qr_utcTimestamp :: string
  qr_appVersion :: string
  qr_pageCount :: nat

text \<open>
  The libraries are outside the repository. A QR data URL is identified with the payload
  whose JSON text \<open>QRCode.toDataURL\<close> encoded, an embedded image with the data URL it
  was made from. A rejected promise carries an \<open>error\<close>.
\<close>

datatype error = Rejected string

datatype data_url = QRDataUrl qr_payload

datatype pdf_image = PDFImage data_url

text \<open>
  What a page holds: the calls of \<open>page.drawText\<close> and \<open>page.drawImage\<close> in the order
  they were made. The font (always the one embedded Helvetica) and the colour are not
  recorded.
\<close>

datatype draw_op =
  DrawText (op_text: string) (op_x: real) (op_y: real) (op_size: real)
| DrawImage (op_image: pdf_image) (op_x: real) (op_y: real) (op_width: real) (op_height: real)

type_synonym page = "draw_op list"

text \<open>A \<open>PDFFont\<close> is represented by its method \<open>widthOfTextAtSize(text, size)\<close>.\<close>

type_synonym font = "string \<Rightarrow> real \<Rightarrow> real"

text \<open>
  What the environment decides: whether each awaited library call rejects, the metrics of
  the embedded font, and the bytes \<open>pdf.save()\<close> serialises a page sequence to.
\<close>

record libs =
  create_error :: "error option"
  embedFont_result :: "error + font"
  toDataURL_error :: "qr_payload \<Rightarrow> error option"
  embedPng_error :: "data_url \<Rightarrow> error option"
  save_result :: "page list \<Rightarrow> error + byte list"

definition QRCode_toDataURL :: "libs \<Rightarrow> qr_payload \<Rightarrow> error + data_url" where
  "QRCode_toDataURL L p = (case toDataURL_error L p of Some e \<Rightarrow> Inl e | None \<Rightarrow> Inr (QRDataUrl p))"

definition embedPng :: "libs \<Rightarrow> data_url \<Rightarrow> error + pdf_image" where
  "embedPng L u = (case embedPng_error L u of Some e \<Rightarrow> Inl e | None \<Rightarrow> Inr (PDFImage u))"

section \<open>String helpers of the JavaScript runtime\<close>

text \<open>\<open>String(n)\<close> for a non-negative integer, as template literals render it.\<close>

definition digit_char :: "nat \<Rightarrow> char" where
  "digit_char d = ''0123456789abcdef'' ! d"

fun string_of_nat :: "nat \<Rightarrow> string" where
  "string_of_nat n =
     (if n < 10 then [digit_char n] else string_of_nat (n div 10) @ [digit_char (n mod 10)])"

text \<open>\<open>s.split(sep)\<close> for a one-character separator: never the empty list.\<close>

fun split_on :: "char \<Rightarrow> string \<Rightarrow> string list" where
  "split_on sep [] = [[]]"
| "split_on sep (c # cs) =
     (if c = sep then [] # split_on sep cs
      else (case split_on sep cs of [] \<Rightarrow> [[c]] | r # rs \<Rightarrow> (c # r) # rs))"

text \<open>
  \<open>s.trim()\<close>. The white space of the model is the ASCII part of ECMAScript's
  WhiteSpace and LineTerminator.
\<close>

definition is_js_space :: "char \<Rightarrow> bool" where
  "is_js_space c = (c \<in> set [CHR 0x09, CHR 0x0A, CHR 0x0B, CHR 0x0C, CHR 0x0D, CHR '' ''])"

definition trim :: "string \<Rightarrow> string" where
  "trim s = rev (dropWhile is_js_space (rev (dropWhile is_js_space s)))"

section \<open>Layout constants\<close>

text \<open>\<open>PageSizes.A4\<close> of pdf-lib: \<open>[595.28, 841.89]\<close>; \<open>page.getSize()\<close> returns it.\<close>

definition width :: real where
  "width = 595.28"

definition height :: real where
  "height = 841.89"

definition x :: real where
  "x = 50"

definition fontSize :: real where
  "fontSize = 10"

definition lineHeight :: real where
  "lineHeight = 14"

definition bottomMargin :: real where
  "bottomMargin = 80"

definition topMargin :: real where
  "topMargin = 80"

definition maxWidth :: real where
  "maxWidth = width - 2 * x"

definition qrw :: real where
  "qrw = 120"

section \<open>drawPageFurniture\<close>

text \<open>The trade mark sign of \<open>footerText\<close> and the bullet of the evidence list, in UTF-8.\<close>

definition trade_mark :: string where
  "trade_mark = [CHR 0xE2, CHR 0x84, CHR 0xA2]"

definition bullet :: string where
  "bullet = [CHR 0xE2, CHR 0x80, CHR 0xA2]"

definition footerText :: string where
  "footerText = trade_mark @ '' Patent Pending Verum Omnis''"

definition hashText :: "string option \<Rightarrow> string" where
  "hashText partialHash =
     (case partialHash of
        None \<Rightarrow> []
      | Some p \<Rightarrow> if p = [] then [] else '' | Evidence Hash: '' @ p @ ''...'')"

definition drawPageFurniture :: "page \<Rightarrow> string option \<Rightarrow> page" where
  "drawPageFurniture pg partialHash = pg @ [DrawText (footerText @ hashText partialHash) 50 40 8]"

section \<open>makeSealedPdf\<close>

text \<open>\<open>input.evidence[0]?.sha512 || null\<close>: the empty string is falsy.\<close>

definition primaryHash :: "SealInput \<Rightarrow> string option" where
  "primaryHash inp =
     (case evidence inp of
        [] \<Rightarrow> None
      | e # _ \<Rightarrow> if sha512 e = [] then None else Some (sha512 e))"

text \<open>\<open>primaryHash ? primaryHash.substring(0, 16) : null\<close>.\<close>

definition partialHash :: "SealInput \<Rightarrow> string option" where
  "partialHash inp = (case primaryHash inp of None \<Rightarrow> None | Some h \<Rightarrow> Some (take 16 h))"

text \<open>The payload as built before any page exists: \<open>pdf.getPageCount()\<close> is 0 then.\<close>

definition qrPayload :: "SealInput \<Rightarrow> nat \<Rightarrow> qr_payload" where
  "qrPayload inp pageCount =
     \<lparr>qr_sha512 = map sha512 (evidence inp),
      qr_filenames = map name (evidence inp),
      qr_utcTimestamp = utcTimestamp inp,
      qr_appVersion = appVersion inp,
      qr_pageCount = pageCount\<rparr>"

text \<open>
  \<open>input.evidence.forEach\<close> on the summary page: the state is the cursor \<open>y\<close> and the
  page; \<open>return\<close> leaves one call of the callback, the iteration goes on.
\<close>

fun evidence_forEach :: "Evidence list \<Rightarrow> real \<times> page \<Rightarrow> real \<times> page" where
  "evidence_forEach [] (y, pg) = (y, pg)"
| "evidence_forEach (ev # evs) (y, pg) =
     (if y < 100 then evidence_forEach evs (y, pg)
      else evidence_forEach evs
             (y - 12 - 14,
              pg @ [DrawText (bullet @ '' '' @ name ev) 60 y 10,
                    DrawText (''  SHA-512: '' @ sha512 ev) 60 (y - 12) 9]))"

text \<open>Page 1: furniture, main heading, title, and the evidence list.\<close>

definition summaryHead :: "SealInput \<Rightarrow> page" where
  "summaryHead inp =
     drawPageFurniture [] (partialHash inp) @
     [DrawText ''Verum Omnis V5'' 50 (height - 80) 24,
      DrawText (if title inp = [] then ''Sealed Forensic Report'' else title inp) 50 (height - 120) 18,
      DrawText ''Evidence & Hashes:'' 50 (height - 165) 12]"

definition summaryPage :: "SealInput \<Rightarrow> page" where
  "summaryPage inp = snd (evidence_forEach (evidence inp) (height - 185, summaryHead inp))"

text \<open>
  The state of the body loop: the pages added so far and the cursor \<open>currentY\<close>.
  \<open>currentPage\<close> is always the page added last.
\<close>

record layout =
  pages :: "page list"
  currentY :: real

definition drawOnCurrentPage :: "draw_op \<Rightarrow> page list \<Rightarrow> page list" where
  "drawOnCurrentPage d ps = butlast ps @ [last ps @ [d]]"

text \<open>
  The block repeated three times in the source:
  \<open>if (currentY < bottomMargin) { currentPage = pdf.addPage(..); drawPageFurniture(..);
  currentY = height - topMargin; }\<close>.
\<close>

definition breakIfBelow :: "string option \<Rightarrow> layout \<Rightarrow> layout" where
  "breakIfBelow ph st =
     (if currentY st < bottomMargin
      then \<lparr>pages = pages st @ [drawPageFurniture [] ph], currentY = height - topMargin\<rparr>
      else st)"

text \<open>The page-break check followed by \<open>currentPage.drawText(line, ..); currentY -= lineHeight\<close>.\<close>

definition drawLine :: "string option \<Rightarrow> string \<Rightarrow> layout \<Rightarrow> layout" where
  "drawLine ph line st =
     (let st1 = breakIfBelow ph st
      in \<lparr>pages = drawOnCurrentPage (DrawText line x (currentY st1) fontSize) (pages st1),
          currentY = currentY st1 - lineHeight\<rparr>)"

text \<open>\<open>for (const word of words)\<close>; \<open>wd\<close> is \<open>font.widthOfTextAtSize(_, fontSize)\<close>.\<close>

fun words_loop :: "(string \<Rightarrow> real) \<Rightarrow> string option \<Rightarrow> string list \<Rightarrow> string \<times> layout \<Rightarrow> string \<times> layout" where
  "words_loop wd ph [] (line, st) = (line, st)"
| "words_loop wd ph (word # ws) (line, st) =
     (let testLine = (if length line = 0 then word else line @ '' '' @ word);
          testWidth = wd testLine
      in if testWidth > maxWidth
         then words_loop wd ph ws (word, drawLine ph line st)
         else words_loop wd ph ws (testLine, st))"

text \<open>\<open>for (const paragraph of paragraphs)\<close>.\<close>

fun paragraphs_loop :: "(string \<Rightarrow> real) \<Rightarrow> string option \<Rightarrow> string list \<Rightarrow> layout \<Rightarrow> layout" where
  "paragraphs_loop wd ph [] st = st"
| "paragraphs_loop wd ph (paragraph # ps) st =
     (if trim paragraph = []
      then paragraphs_loop wd ph ps (breakIfBelow ph (st\<lparr>currentY := currentY st - lineHeight\<rparr>))
      else (case words_loop wd ph (split_on CHR '' '' paragraph) ([], st) of
              (line, st1) \<Rightarrow>
                paragraphs_loop wd ph ps (if length line > 0 then drawLine ph line st1 else st1)))"

text \<open>
  \<open>if (input.messagesHtml) { .. }\<close>: the pages of the document after the body section,
  given the summary page. \<open>undefined\<close> and the empty string are falsy.
\<close>

definition bodySection :: "font \<Rightarrow> SealInput \<Rightarrow> page list \<Rightarrow> page list" where
  "bodySection fnt inp ps =
     (case messagesHtml inp of
        None \<Rightarrow> ps
      | Some html \<Rightarrow>
          if html = [] then ps
          else pages (paragraphs_loop (\<lambda>s. fnt s fontSize) (partialHash inp)
                        (split_on CHR 0x0A html)
                        \<lparr>pages = ps @ [drawPageFurniture [] (partialHash inp) @
                                        [DrawText ''Conversation Excerpt:'' 50 (height - 80) 12]],
                         currentY = height - 100\<rparr>))"

text \<open>\<open>meta.forEach(m => { final.drawText(m, ..); my -= 14; })\<close>.\<close>

fun meta_forEach :: "string list \<Rightarrow> real \<times> page \<Rightarrow> real \<times> page" where
  "meta_forEach [] (my, pg) = (my, pg)"
| "meta_forEach (m # ms) (my, pg) = meta_forEach ms (my - 14, pg @ [DrawText m 50 my 11])"

text \<open>
  The final sealing page: furniture, heading, the embedded QR image, the metadata lines.
  \<open>finalPageCount\<close> is \<open>pdf.getPageCount()\<close> once the final page has been added.
\<close>

definition finalPage :: "SealInput \<Rightarrow> pdf_image \<Rightarrow> nat \<Rightarrow> page" where
  "finalPage inp qrPng finalPageCount =
     snd (meta_forEach
            [''Local Timestamp: '' @ localTimestamp inp,
             ''UTC Timestamp: '' @ utcTimestamp inp,
             ''Version: '' @ appVersion inp,
             ''Files: '' @ string_of_nat (length (evidence inp)),
             ''Page Count: '' @ string_of_nat finalPageCount]
            (height - 110,
             drawPageFurniture [] (partialHash inp) @
             [DrawText ''Sealing Metadata'' 50 (height - 80) 14,
              DrawImage qrPng (width - 50 - qrw) 50 qrw qrw]))"

text \<open>
  Everything \<open>makeSealedPdf\<close> does before \<open>pdf.save()\<close>: the page sequence handed to the
  serialiser, or the rejection of an awaited call. \<open>pdf.getPageCount()\<close> is the number
  of pages added so far: none when \<open>pageCount\<close> is read, all of them when
  \<open>finalPageCount\<close> is. The QR data URL is made from the payload as it is when
  \<open>QRCode.toDataURL\<close> is called; the later assignment
  \<open>qrPayload.pageCount = finalPageCount\<close> changes the local object only.
\<close>

definition makeSealedPdf_pages :: "libs \<Rightarrow> SealInput \<Rightarrow> error + page list" where
  "makeSealedPdf_pages L inp =
     (case create_error L of
        Some e \<Rightarrow> Inl e
      | None \<Rightarrow>
     (case embedFont_result L of
        Inl e \<Rightarrow> Inl e
      | Inr fnt \<Rightarrow>
     (let pageCount = length ([] :: page list);
          payload = qrPayload inp pageCount
      in case QRCode_toDataURL L payload of
        Inl e \<Rightarrow> Inl e
      | Inr qrDataUrl \<Rightarrow>
     (let ps = bodySection fnt inp [summaryPage inp]
      in case embedPng L qrDataUrl of
        Inl e \<Rightarrow> Inl e
      | Inr qrPng \<Rightarrow>
     (let finalPageCount = length ps + 1;
          payload_updated = payload\<lparr>qr_pageCount := finalPageCount\<rparr>
      in Inr (ps @ [finalPage inp qrPng finalPageCount]))))))"

definition makeSealedPdf :: "libs \<Rightarrow> SealInput \<Rightarrow> error + byte list" where
  "makeSealedPdf L inp =
     (case makeSealedPdf_pages L inp of Inl e \<Rightarrow> Inl e | Inr ps \<Rightarrow> save_result L ps)"

section \<open>The Hasher and the caller of the builder (App.tsx)\<close>

text \<open>\<open>n.toString(16)\<close> for a non-negative integer.\<close>

fun toString16 :: "nat \<Rightarrow> string" where
  "toString16 n =
     (if n < 16 then [digit_char n] else toString16 (n div 16) @ [digit_char (n mod 16)])"

text \<open>\<open>s.padStart(targetLength, c)\<close> for a one-character pad string.\<close>

definition padStart :: "nat \<Rightarrow> char \<Rightarrow> string \<Rightarrow> string" where
  "padStart targetLength c s = replicate (targetLength - length s) c @ s"

text \<open>
  \<open>stringToHash\<close>. The parameter \<open>digest\<close> is \<open>crypto.subtle.digest('SHA-512', _)\<close> of
  the platform, which is outside the repository.
\<close>

definition stringToHash :: "(byte list \<Rightarrow> byte list) \<Rightarrow> byte list \<Rightarrow> string" where
  "stringToHash digest data =
     concat (map (\<lambda>b. padStart 2 CHR ''0'' (toString16 (unat b))) (digest data))"

text \<open>
  \<open>s.replace(/pat/g, rep)\<close> for a pattern that matches one literal text: the matches are
  found from left to right and do not overlap. The replacement is inserted as it is: a
  hexadecimal digest and \<open>'N/A'\<close> contain no \<open>$\<close>, and a storage path or record id
  that contains one is outside the model.
\<close>

function replaceAll :: "string \<Rightarrow> string \<Rightarrow> string \<Rightarrow> string" where
  "replaceAll pat rep [] = []"
| "replaceAll pat rep (c # cs) =
     (if pat \<noteq> [] \<and> prefix pat (c # cs)
      then rep @ replaceAll pat rep (drop (length pat) (c # cs))
      else c # replaceAll pat rep cs)"
  by pat_completeness auto
termination
  by (relation "measure (\<lambda>(pat, rep, s). length s)") (auto simp: neq_Nil_conv)

text \<open>\<open>xs.findIndex(P)\<close>: \<open>None\<close> is -1.\<close>

fun findIndex :: "('a \<Rightarrow> bool) \<Rightarrow> 'a list \<Rightarrow> nat option" where
  "findIndex P [] = None"
| "findIndex P (a # as) = (if P a then Some 0 else map_option Suc (findIndex P as))"

text \<open>\<open>SealingMetadata['cloudAnchor']\<close>: confirmed with storage path and record id, or failed.\<close>

datatype cloud_anchor =
  CloudConfirmed string string
| CloudFailed string

text \<open>The fields of a chat message and of an uploaded file that the seal operation reads or writes.\<close>

record ChatMessage =
  msg_id :: string
  content :: string
  sealingMetadata :: "(string \<times> cloud_anchor) option"

record UploadedFile =
  file_name :: string
  file_sha512 :: "string option"

text \<open>The object \<open>performSealingProcess\<close> resolves to.\<close>

record seal_result =
  fileName :: string
  hash :: string
  cloudAnchor :: cloud_anchor
  pdfBytes :: "byte list"
  updatedContent :: string

text \<open>
  The environment of one seal operation: the libraries of the builder, the platform's
  SHA-512, the two renderings of \<open>new Date()\<close>, \<open>markdownToPlainText\<close> (a chain of
  regular-expression replacements, kept abstract), and the outcome of the Firebase block:
  the message of the error it caught, or the user id and the report id.
\<close>

record app_env =
  pdf_libs :: libs
  subtle_digest :: "byte list \<Rightarrow> byte list"
  now_utc :: string
  now_local :: string
  markdownToPlainText :: "string \<Rightarrow> string"
  firebase :: "string + string \<times> string"

definition APP_VERSION :: string where
  "APP_VERSION = ''5.1.0''"

definition hashPlaceholder :: string where
  "hashPlaceholder = ''[Placeholder for SHA-512 hash of this report]''"

definition cloudPlaceholder :: string where
  "cloudPlaceholder = ''[Placeholder for Cloud Anchor]''"

definition firestorePlaceholder :: string where
  "firestorePlaceholder = ''[Placeholder for Firestore Record]''"

text \<open>\<open>cloudAnchorResult.storagePath || 'N/A'\<close> and \<open>cloudAnchorResult.firestoreId || 'N/A'\<close>.\<close>

definition storagePath_or_NA :: "cloud_anchor \<Rightarrow> string" where
  "storagePath_or_NA a =
     (case a of CloudConfirmed p i \<Rightarrow> if p = [] then ''N/A'' else p | CloudFailed m \<Rightarrow> ''N/A'')"

definition firestoreId_or_NA :: "cloud_anchor \<Rightarrow> string" where
  "firestoreId_or_NA a =
     (case a of CloudConfirmed p i \<Rightarrow> if i = [] then ''N/A'' else i | CloudFailed m \<Rightarrow> ''N/A'')"

text \<open>The argument of the call \<open>makeSealedPdf({..})\<close> in \<open>performSealingProcess\<close>.\<close>

definition sealingRequest :: "app_env \<Rightarrow> ChatMessage \<Rightarrow> UploadedFile list \<Rightarrow> SealInput" where
  "sealingRequest E message uploadedFiles =
     (let isManifestOnly = \<not> sublist ''## Key Findings'' (content message)
      in \<lparr>title = (if isManifestOnly then ''Sealed Document Manifest'' else ''Sealed Forensic Report''),
          messagesHtml = Some (if isManifestOnly then [] else markdownToPlainText E (content message)),
          evidence =
            map (\<lambda>f. \<lparr>name = file_name f,
                       sha512 = (case file_sha512 f of None \<Rightarrow> [] | Some h \<Rightarrow> h)\<rparr>)
                (filter (\<lambda>f. case file_sha512 f of None \<Rightarrow> False | Some h \<Rightarrow> h \<noteq> [])
                        uploadedFiles),
          utcTimestamp = now_utc E,
          localTimestamp = now_local E,
          appVersion = APP_VERSION,
          logoDataUrl = None\<rparr>)"

text \<open>
  \<open>performSealingProcess\<close>: the new value of the \<open>messages\<close> state and the result
  (\<open>None\<close> is \<open>null\<close>), or the rejection of \<open>makeSealedPdf\<close>, which is awaited outside
  every \<open>try\<close>.
\<close>

definition performSealingProcess ::
  "app_env \<Rightarrow> ChatMessage list \<Rightarrow> UploadedFile list \<Rightarrow> string
     \<Rightarrow> error + ChatMessage list \<times> seal_result option" where
  "performSealingProcess E messages uploadedFiles messageId =
     (case findIndex (\<lambda>m. msg_id m = messageId) messages of
        None \<Rightarrow> Inr (messages, None)
      | Some messageIndex \<Rightarrow>
     (let message = messages ! messageIndex
      in case makeSealedPdf (pdf_libs E) (sealingRequest E message uploadedFiles) of
        Inl e \<Rightarrow> Inl e
      | Inr bytes \<Rightarrow>
     (let pdfHash = stringToHash (subtle_digest E) bytes;
          fname = ''VO_Sealed_Report_'' @
                  map (\<lambda>c. if c = CHR '':'' \<or> c = CHR ''.'' then CHR ''-'' else c) (now_utc E) @
                  ''.pdf'';
          cloudAnchorResult =
            (case firebase E of
               Inl msg \<Rightarrow> CloudFailed msg
             | Inr (uid, reportId) \<Rightarrow>
                 CloudConfirmed (''users/'' @ uid @ ''/reports/'' @ fname) reportId);
          newContent =
            replaceAll firestorePlaceholder (firestoreId_or_NA cloudAnchorResult)
              (replaceAll cloudPlaceholder (storagePath_or_NA cloudAnchorResult)
                 (replaceAll hashPlaceholder pdfHash (content message)))
      in Inr (messages[messageIndex :=
                 message\<lparr>content := newContent,
                         sealingMetadata := Some (pdfHash, cloudAnchorResult)\<rparr>],
              Some \<lparr>fileName = fname, hash = pdfHash, cloudAnchor = cloudAnchorResult,
                    pdfBytes = bytes, updatedContent = newContent\<rparr>))))"

section \<open>Notions used to state and prove the properties\<close>

text \<open>The draw operations of a page sequence.\<close>

definition drawn :: "page list \<Rightarrow> draw_op set" where
  "drawn ps = (\<Union>p\<in>set ps. set p)"

text \<open>The footer that \<open>drawPageFurniture\<close> draws.\<close>

definition footerOp :: "string option \<Rightarrow> draw_op" where
  "footerOp ph = DrawText (footerText @ hashText ph) 50 40 8"

text \<open>The two text lines of each entry of an evidence list laid out downwards from \<open>y\<close>.\<close>

fun evidenceLines :: "real \<Rightarrow> Evidence list \<Rightarrow> draw_op list" where
  "evidenceLines y [] = []"
| "evidenceLines y (ev # evs) =
     [DrawText (bullet @ '' '' @ name ev) 60 y 10,
      DrawText (''  SHA-512: '' @ sha512 ev) 60 (y - 12) 9] @ evidenceLines (y - 26) evs"

text \<open>
  The body loop as two passes: what the loop asks the paginator to place (a blank
  paragraph or a wrapped line), and the placement of one such event.
\<close>

datatype body_event = Blank | Line string

text \<open>The lines the word loop flushes on overflow, and the line it is left with.\<close>

fun wrap_words :: "(string \<Rightarrow> real) \<Rightarrow> string list \<Rightarrow> string \<Rightarrow> string list \<times> string" where
  "wrap_words wd [] line = ([], line)"
| "wrap_words wd (word # ws) line =
     (let testLine = (if length line = 0 then word else line @ '' '' @ word)
      in if wd testLine > maxWidth
         then (case wrap_words wd ws word of (ls, l) \<Rightarrow> (line # ls, l))
         else wrap_words wd ws testLine)"

definition paragraph_events :: "(string \<Rightarrow> real) \<Rightarrow> string \<Rightarrow> body_event list" where
  "paragraph_events wd paragraph =
     (if trim paragraph = [] then [Blank]
      else (case wrap_words wd (split_on CHR '' '' paragraph) [] of
              (ls, l) \<Rightarrow> map Line ls @ (if length l > 0 then [Line l] else [])))"

fun place :: "string option \<Rightarrow> layout \<Rightarrow> body_event \<Rightarrow> layout" where
  "place ph st Blank = breakIfBelow ph (st\<lparr>currentY := currentY st - lineHeight\<rparr>)"
| "place ph st (Line l) = drawLine ph l st"

text \<open>The pages the body section adds after the summary page.\<close>

definition bodyPages :: "font \<Rightarrow> SealInput \<Rightarrow> page list" where
  "bodyPages fnt inp = tl (bodySection fnt inp [summaryPage inp])"

text \<open>The state in which the paragraph loop starts, without the summary page.\<close>

definition bodyStart :: "string option \<Rightarrow> layout" where
  "bodyStart ph =
     \<lparr>pages = [drawPageFurniture [] ph @ [DrawText ''Conversation Excerpt:'' 50 (height - 80) 12]],
      currentY = height - 100\<rparr>"

text \<open>The heading of the first body page.\<close>

definition headingOp :: draw_op where
  "headingOp = DrawText ''Conversation Excerpt:'' 50 (height - 80) 12"

text \<open>The payloads of the QR images drawn on a page, in drawing order.\<close>

fun imagePayloads :: "page \<Rightarrow> qr_payload list" where
  "imagePayloads [] = []"
| "imagePayloads (DrawImage (PDFImage (QRDataUrl p)) ix iy iw ih # ds) = p # imagePayloads ds"
| "imagePayloads (DrawText t tx ty ts # ds) = imagePayloads ds"

section \<open>Example inputs\<close>

text \<open>The end-to-end scenario of the specification, with one evidence file and no body text.\<close>

definition scenario_input :: SealInput where
  "scenario_input =
     \<lparr>title = ''Sealed Forensic Report'',
      messagesHtml = None,
      evidence = [\<lparr>name = ''a.txt'', sha512 = replicate 128 CHR ''a''\<rparr>],
      utcTimestamp = ''2024-01-01T00:00:00.000Z'',
      localTimestamp = ''1/1/2024, 12:00:00 AM UTC'',
      appVersion = ''5.1.0'',
      logoDataUrl = None\<rparr>"

text \<open>A font in which every character is 0.6 em wide, and libraries that never reject.\<close>

definition fixed_pitch :: font where
  "fixed_pitch s sz = 0.6 * sz * real (length s)"

definition plain_libs :: libs where
  "plain_libs =
     \<lparr>create_error = None,
      embedFont_result = Inr fixed_pitch,
      toDataURL_error = (\<lambda>p. None),
      embedPng_error = (\<lambda>u. None),
      save_result = (\<lambda>ps. Inr (map (\<lambda>p. of_nat (length p)) ps))\<rparr>"

text \<open>The scenario with a body text, and with another evidence list.\<close>

definition with_body :: "string \<Rightarrow> SealInput" where
  "with_body html = scenario_input\<lparr>messagesHtml := Some html\<rparr>"

text \<open>Libraries whose font embedding, image embedding or serialisation rejects.\<close>

definition failing_font :: libs where
  "failing_font = plain_libs\<lparr>embedFont_result := Inl (Rejected ''font'')\<rparr>"

definition failing_image :: libs where
  "failing_image = plain_libs\<lparr>embedPng_error := (\<lambda>u. Some (Rejected ''image''))\<rparr>"

definition failing_save :: libs where
  "failing_save = plain_libs\<lparr>save_result := (\<lambda>ps. Inl (Rejected ''save''))\<rparr>"

text \<open>
  The SHA-512 digest of the empty byte sequence, and a stand-in for the platform digest
  that agrees with SHA-512 there and returns 64 bytes everywhere.
\<close>

definition sha512_empty :: "byte list" where
  "sha512_empty =
     [0xCF, 0x83, 0xE1, 0x35, 0x7E, 0xEF, 0xB8, 0xBD, 0xF1, 0x54, 0x28, 0x50, 0xD6, 0x6D, 0x80, 0x07,
      0xD6, 0x20, 0xE4, 0x05, 0x0B, 0x57, 0x15, 0xDC, 0x83, 0xF4, 0xA9, 0x21, 0xD3, 0x6C, 0xE9, 0xCE,
      0x47, 0xD0, 0xD1, 0x3C, 0x5D, 0x85, 0xF2, 0xB0, 0xFF, 0x83, 0x18, 0xD2, 0x87, 0x7E, 0xEC, 0x2F,
      0x63, 0xB9, 0x31, 0xBD, 0x47, 0x41, 0x7A, 0x81, 0xA5, 0x38, 0x32, 0x7A, 0xF9, 0x27, 0xDA, 0x3E]"

definition example_digest :: "byte list \<Rightarrow> byte list" where
  "example_digest data = (if data = [] then sha512_empty else replicate 64 (of_nat (length data)))"

text \<open>A seal operation: two chat messages, one uploaded file, no cloud account.\<close>

definition example_env :: app_env where
  "example_env =
     \<lparr>pdf_libs = plain_libs,
      subtle_digest = example_digest,
      now_utc = ''2024-01-01T00:00:00.000Z'',
      now_local = ''1/1/2024, 12:00:00 AM UTC'',
      markdownToPlainText = (\<lambda>s. s),
      firebase = Inl ''Authentication failed. Cannot seal report to the cloud.''\<rparr>"

definition example_messages :: "ChatMessage list" where
  "example_messages =
     [\<lparr>msg_id = ''initial'', content = ''Welcome to Verum Omnis V5.'', sealingMetadata = None\<rparr>,
      \<lparr>msg_id = ''ai-seal-1'',
       content = ''- Certified SHA-512 Hash: [Placeholder for SHA-512 hash of this report]'',
       sealingMetadata = None\<rparr>]"

definition example_files :: "UploadedFile list" where
  "example_files = [\<lparr>file_name = ''a.txt'', file_sha512 = Some (replicate 128 CHR ''a'')\<rparr>]"

section \<open>The evidence list of the summary page\<close>

lemma evidence_forEach_below: "y < 100 \<Longrightarrow> evidence_forEach evs (y, pg) = (y, pg)"
  by (induction evs) auto

lemma evidence_forEach_lines:
  "100 \<le> y - 26 * real n + 26 \<or> n = 0 \<Longrightarrow> y - 26 * real n < 100 \<Longrightarrow>
   snd (evidence_forEach evs (y, pg)) = pg @ evidenceLines y (take n evs)"
proof (induction evs arbitrary: y n pg)
  case Nil
  then show ?case by simp
next
  case (Cons ev evs)
  show ?case
  proof (cases n)
    case 0
    with Cons.prems have "y < 100" by simp
    then show ?thesis using 0 by (simp add: evidence_forEach_below)
  next
    case (Suc m)
    with Cons.prems have y: "100 \<le> y" by (auto simp: algebra_simps)
    have "snd (evidence_forEach evs (y - 26, pg')) = pg' @ evidenceLines (y - 26) (take m evs)" for pg'
      using Cons.prems Suc by (intro Cons.IH) (auto simp: algebra_simps)
    with y Suc show ?thesis by simp
  qed
qed


section \<open>The body loop as wrapping followed by placement\<close>

lemma words_loop_wrap:
  "words_loop wd ph ws (line, st) =
     (snd (wrap_words wd ws line), foldl (place ph) st (map Line (fst (wrap_words wd ws line))))"
  by (induction ws arbitrary: line st) (auto simp: Let_def split: prod.splits)

lemma paragraphs_loop_events:
  "paragraphs_loop wd ph ps st = foldl (place ph) st (concat (map (paragraph_events wd) ps))"
  by (induction ps arbitrary: st)
     (auto simp: paragraph_events_def words_loop_wrap split: prod.splits)

section \<open>What placement draws\<close>

lemma drawn_append: "drawn (ps @ qs) = drawn ps \<union> drawn qs"
  by (simp add: drawn_def)

lemma drawn_single: "drawn [p] = set p"
  by (simp add: drawn_def)

lemma drawPageFurniture_eq: "drawPageFurniture pg ph = pg @ [footerOp ph]"
  by (simp add: drawPageFurniture_def footerOp_def)

lemma drawOnCurrentPage_append:
  "qs \<noteq> [] \<Longrightarrow> drawOnCurrentPage d (ps @ qs) = ps @ drawOnCurrentPage d qs"
  by (simp add: drawOnCurrentPage_def butlast_append)

lemma drawOnCurrentPage_nonempty: "drawOnCurrentPage d ps \<noteq> []"
  by (simp add: drawOnCurrentPage_def)


lemma drawn_drawOnCurrentPage:
  assumes "ps \<noteq> []"
  shows "drawn (drawOnCurrentPage d ps) = insert d (drawn ps)"
proof -
  from assms have "drawn ps = drawn (butlast ps @ [last ps])" by simp
  also have "\<dots> = drawn (butlast ps) \<union> set (last ps)"
    by (simp only: drawn_append drawn_single)
  finally show ?thesis
    by (auto simp only: drawOnCurrentPage_def drawn_append drawn_single set_append list.set)
qed

lemma pages_breakIfBelow_nonempty: "pages st \<noteq> [] \<Longrightarrow> pages (breakIfBelow ph st) \<noteq> []"
  by (simp add: breakIfBelow_def)

lemma currentY_breakIfBelow: "bottomMargin \<le> currentY (breakIfBelow ph st)"
  by (simp add: breakIfBelow_def bottomMargin_def height_def topMargin_def)

lemma drawn_breakIfBelow:
  "drawn (pages (breakIfBelow ph st)) \<subseteq> insert (footerOp ph) (drawn (pages st))"
  "drawn (pages st) \<subseteq> drawn (pages (breakIfBelow ph st))"
  by (auto simp: breakIfBelow_def drawPageFurniture_eq drawn_append drawn_single)

lemma place_nonempty: "pages st \<noteq> [] \<Longrightarrow> pages (place ph st ev) \<noteq> []"
  by (cases ev) (simp_all add: breakIfBelow_def drawLine_def Let_def drawOnCurrentPage_nonempty)

lemma foldl_place_nonempty: "pages st \<noteq> [] \<Longrightarrow> pages (foldl (place ph) st es) \<noteq> []"
  by (induction es arbitrary: st) (simp_all add: place_nonempty)

lemma place_frame:
  "pages st \<noteq> [] \<Longrightarrow>
   place ph (st\<lparr>pages := ps @ pages st\<rparr>) ev = (place ph st ev)\<lparr>pages := ps @ pages (place ph st ev)\<rparr>"
  by (cases ev)
     (simp_all add: breakIfBelow_def drawLine_def Let_def drawOnCurrentPage_append)

lemma foldl_place_frame:
  "pages st \<noteq> [] \<Longrightarrow>
   foldl (place ph) (st\<lparr>pages := ps @ pages st\<rparr>) es =
     (foldl (place ph) st es)\<lparr>pages := ps @ pages (foldl (place ph) st es)\<rparr>"
  by (induction es arbitrary: st) (simp_all add: place_frame place_nonempty)

lemma place_ops:
  assumes "pages st \<noteq> []" and "d \<in> drawn (pages (place ph st ev))"
  shows "d \<in> drawn (pages st) \<or> d = footerOp ph \<or>
         (\<exists>l y. ev = Line l \<and> d = DrawText l x y fontSize \<and> bottomMargin \<le> y)"
proof (cases ev)
  case Blank
  with assms(2) drawn_breakIfBelow(1) [of ph "st\<lparr>currentY := currentY st - lineHeight\<rparr>"]
  show ?thesis by auto
next
  case (Line l)
  let ?st1 = "breakIfBelow ph st"
  have ne: "pages ?st1 \<noteq> []" using assms(1) by (rule pages_breakIfBelow_nonempty)
  have "d = DrawText l x (currentY ?st1) fontSize \<or> d \<in> drawn (pages ?st1)"
    using assms(2) Line by (simp add: drawLine_def Let_def drawn_drawOnCurrentPage [OF ne])
  moreover have "d \<in> drawn (pages ?st1) \<Longrightarrow> d \<in> drawn (pages st) \<or> d = footerOp ph"
    using drawn_breakIfBelow(1) [of ph st] by auto
  ultimately show ?thesis using Line currentY_breakIfBelow [of ph st] by blast
qed

lemma foldl_place_ops:
  assumes "pages st \<noteq> []" and "d \<in> drawn (pages (foldl (place ph) st es))"
  shows "d \<in> drawn (pages st) \<or> d = footerOp ph \<or>
         (\<exists>l y. Line l \<in> set es \<and> d = DrawText l x y fontSize \<and> bottomMargin \<le> y)"
  using assms
proof (induction es arbitrary: st)
  case Nil
  then show ?case by simp
next
  case (Cons e es)
  from Cons.prems(1) have ne: "pages (place ph st e) \<noteq> []" by (rule place_nonempty)
  from Cons.IH [OF ne] Cons.prems(2)
  consider "d \<in> drawn (pages (place ph st e))" | "d = footerOp ph"
    | "\<exists>l y. Line l \<in> set es \<and> d = DrawText l x y fontSize \<and> bottomMargin \<le> y"
    by auto
  then show ?case
  proof cases
    case 1
    from place_ops [OF Cons.prems(1) 1] show ?thesis by auto
  next
    case 2
    then show ?thesis by simp
  next
    case 3
    then show ?thesis by auto
  qed
qed





section \<open>Word wrap, footers and page counts\<close>




lemma place_footers:
  assumes "pages st \<noteq> []" and "\<forall>p\<in>set (pages st). p \<noteq> [] \<and> hd p = footerOp ph"
  shows "\<forall>p\<in>set (pages (place ph st ev)). p \<noteq> [] \<and> hd p = footerOp ph"
proof -
  have brk: "\<forall>p\<in>set (pages (breakIfBelow ph s)). p \<noteq> [] \<and> hd p = footerOp ph"
    if "\<forall>p\<in>set (pages s). p \<noteq> [] \<and> hd p = footerOp ph" for s
    using that by (auto simp: breakIfBelow_def drawPageFurniture_eq)
  have drw: "\<forall>p\<in>set (drawOnCurrentPage d ps). p \<noteq> [] \<and> hd p = footerOp ph"
    if "ps \<noteq> []" "\<forall>p\<in>set ps. p \<noteq> [] \<and> hd p = footerOp ph" for d ps
  proof -
    from that have "last ps \<noteq> [] \<and> hd (last ps) = footerOp ph" by simp
    moreover have "set (butlast ps) \<subseteq> set ps" by (auto dest: in_set_butlastD)
    ultimately show ?thesis using that(2) by (auto simp: drawOnCurrentPage_def)
  qed
  show ?thesis
  proof (cases ev)
    case Blank
    then show ?thesis using brk [of "st\<lparr>currentY := currentY st - lineHeight\<rparr>"] assms(2) by simp
  next
    case (Line l)
    then show ?thesis
      using drw [OF pages_breakIfBelow_nonempty [OF assms(1)] brk [OF assms(2)]]
      by (simp add: drawLine_def Let_def)
  qed
qed

lemma foldl_place_footers:
  "pages st \<noteq> [] \<Longrightarrow> \<forall>p\<in>set (pages st). p \<noteq> [] \<and> hd p = footerOp ph \<Longrightarrow>
   \<forall>p\<in>set (pages (foldl (place ph) st es)). p \<noteq> [] \<and> hd p = footerOp ph"
proof (induction es arbitrary: st)
  case Nil
  then show ?case by simp
next
  case (Cons e es)
  from Cons.IH [OF place_nonempty [OF Cons.prems(1)] place_footers [OF Cons.prems]]
  show ?case by simp
qed




section \<open>The page sequence of a sealed document\<close>

lemma bodySection_events:
  "bodySection fnt inp ps =
     (case messagesHtml inp of
        None \<Rightarrow> ps
      | Some html \<Rightarrow>
          if html = [] then ps
          else ps @ pages (foldl (place (partialHash inp)) (bodyStart (partialHash inp))
                             (concat (map (paragraph_events (\<lambda>s. fnt s fontSize))
                                          (split_on CHR 0x0A html)))))"
proof -
  let ?st = "bodyStart (partialHash inp)"
  have ne: "pages ?st \<noteq> []" by (simp add: bodyStart_def)
  have "\<lparr>pages = ps @ [drawPageFurniture [] (partialHash inp) @
                         [DrawText ''Conversation Excerpt:'' 50 (height - 80) 12]],
         currentY = height - 100\<rparr> = ?st\<lparr>pages := ps @ pages ?st\<rparr>"
    by (simp add: bodyStart_def)
  then show ?thesis
    by (simp add: bodySection_def paragraphs_loop_events foldl_place_frame [OF ne]
             split: option.splits)
qed

lemma bodySection_bodyPages: "bodySection fnt inp [s] = s # tl (bodySection fnt inp [s])"
  by (simp add: bodySection_events split: option.splits)

lemma bodyPages_events:
  "bodyPages fnt inp =
     (case messagesHtml inp of
        None \<Rightarrow> []
      | Some html \<Rightarrow>
          if html = [] then []
          else pages (foldl (place (partialHash inp)) (bodyStart (partialHash inp))
                        (concat (map (paragraph_events (\<lambda>s. fnt s fontSize))
                                     (split_on CHR 0x0A html)))))"
  by (simp add: bodyPages_def bodySection_events split: option.splits)

lemma makeSealedPdf_pages_ok:
  assumes "create_error L = None" and "embedFont_result L = Inr fnt"
    and "toDataURL_error L (qrPayload inp 0) = None"
    and "embedPng_error L (QRDataUrl (qrPayload inp 0)) = None"
  shows "makeSealedPdf_pages L inp =
           Inr (summaryPage inp # bodyPages fnt inp @
                [finalPage inp (PDFImage (QRDataUrl (qrPayload inp 0))) (length (bodyPages fnt inp) + 2)])"
proof -
  have "bodySection fnt inp [summaryPage inp] = summaryPage inp # bodyPages fnt inp"
    unfolding bodyPages_def by (rule bodySection_bodyPages)
  with assms show ?thesis
    by (simp add: makeSealedPdf_pages_def QRCode_toDataURL_def embedPng_def Let_def)
qed

lemma makeSealedPdf_pages_Inr:
  assumes "makeSealedPdf_pages L inp = Inr ps"
  obtains fnt where "create_error L = None" and "embedFont_result L = Inr fnt"
    and "toDataURL_error L (qrPayload inp 0) = None"
    and "embedPng_error L (QRDataUrl (qrPayload inp 0)) = None"
    and "ps = summaryPage inp # bodyPages fnt inp @
                [finalPage inp (PDFImage (QRDataUrl (qrPayload inp 0))) (length (bodyPages fnt inp) + 2)]"
proof -
  from assms have c: "create_error L = None"
    by (auto simp: makeSealedPdf_pages_def split: option.splits)
  from assms c obtain fnt where f: "embedFont_result L = Inr fnt"
    by (auto simp: makeSealedPdf_pages_def split: sum.splits)
  from assms c f have q: "toDataURL_error L (qrPayload inp 0) = None"
    by (auto simp: makeSealedPdf_pages_def QRCode_toDataURL_def Let_def split: option.splits)
  from assms c f q have e: "embedPng_error L (QRDataUrl (qrPayload inp 0)) = None"
    by (auto simp: makeSealedPdf_pages_def QRCode_toDataURL_def embedPng_def Let_def
             split: option.splits)
  from makeSealedPdf_pages_ok [OF c f q e] assms that [OF c f q e] show thesis by simp
qed

section \<open>Properties of the sealed document\<close>

lemma plain_libs_pages:
  "makeSealedPdf_pages plain_libs inp =
     Inr (summaryPage inp # bodyPages fixed_pitch inp @
          [finalPage inp (PDFImage (QRDataUrl (qrPayload inp 0))) (length (bodyPages fixed_pitch inp) + 2)])"
  by (rule makeSealedPdf_pages_ok) (simp_all add: plain_libs_def)

lemma summaryPage_lines:
  "summaryPage inp = summaryHead inp @ evidenceLines (height - 185) (take 22 (evidence inp))"
  unfolding summaryPage_def
  by (rule evidence_forEach_lines) (simp_all add: height_def)





text \<open>
  C6: when the body text is absent or empty, the page sequence handed to the serialiser
  is exactly the summary page followed by the metadata page, and the bytes returned are
  the serialisation of these two pages.
\<close>

theorem no_body_two_pages:
  assumes "messagesHtml inp = None \<or> messagesHtml inp = Some []"
    and "makeSealedPdf_pages L inp = Inr ps"
  shows "length ps = 2 \<and>
         ps = [summaryPage inp, finalPage inp (PDFImage (QRDataUrl (qrPayload inp 0))) 2] \<and>
         makeSealedPdf L inp = save_result L ps"
proof -
  from assms(2) obtain fnt where
    "ps = summaryPage inp # bodyPages fnt inp @
           [finalPage inp (PDFImage (QRDataUrl (qrPayload inp 0))) (length (bodyPages fnt inp) + 2)]"
    by (rule makeSealedPdf_pages_Inr)
  moreover have "bodyPages fnt inp = []" using assms(1) by (auto simp: bodyPages_events)
  ultimately show ?thesis using assms(2) by (simp add: makeSealedPdf_def numeral_2_eq_2)
qed

text \<open>The end-to-end scenario: two pages, of 6 and 8 draw operations.\<close>

theorem no_body_two_pages_witness:
  "length [summaryPage scenario_input,
           finalPage scenario_input (PDFImage (QRDataUrl (qrPayload scenario_input 0))) 2] = 2 \<and>
   makeSealedPdf plain_libs scenario_input = Inr [6, 8]"
proof -
  have m: "messagesHtml scenario_input = None \<or> messagesHtml scenario_input = Some []"
    by (simp add: scenario_input_def)
  have b: "bodyPages fixed_pitch scenario_input = []"
    by (simp add: bodyPages_events scenario_input_def)
  have p: "makeSealedPdf_pages plain_libs scenario_input =
             Inr [summaryPage scenario_input,
                  finalPage scenario_input (PDFImage (QRDataUrl (qrPayload scenario_input 0))) 2]"
    by (simp add: plain_libs_pages b numeral_2_eq_2)
  from no_body_two_pages [OF m p] show ?thesis
    apply (simp add: plain_libs_def summaryPage_lines)
    apply (simp add: summaryHead_def finalPage_def drawPageFurniture_def scenario_input_def)
    done
qed

lemma imagePayloads_append: "imagePayloads (ds @ es) = imagePayloads ds @ imagePayloads es"
  by (induction ds rule: imagePayloads.induct) simp_all

lemma meta_forEach_snd: "snd (meta_forEach ms (my, pg)) = pg @ snd (meta_forEach ms (my, []))"
proof (induction ms arbitrary: my pg)
  case Nil
  then show ?case by simp
next
  case (Cons m ms)
  from Cons [of "my - 14" "pg @ [DrawText m 50 my 11]"] Cons [of "my - 14" "[DrawText m 50 my 11]"]
  show ?case by simp
qed

lemma imagePayloads_meta: "imagePayloads (snd (meta_forEach ms (my, []))) = []"
proof (induction ms arbitrary: my)
  case Nil
  then show ?case by simp
next
  case (Cons m ms)
  from Cons [of "my - 14"] show ?case
    by (simp add: meta_forEach_snd [of ms "my - 14" "[DrawText m 50 my 11]"] imagePayloads_append)
qed

lemma imagePayloads_finalPage: "imagePayloads (finalPage inp (PDFImage (QRDataUrl p)) n) = [p]"
  unfolding finalPage_def
  by (subst meta_forEach_snd)
     (simp add: imagePayloads_append imagePayloads_meta drawPageFurniture_def)

lemma embedded_payload_stale:
  assumes "makeSealedPdf_pages L inp = Inr ps"
  shows "map qr_pageCount (imagePayloads (last ps)) = [0] \<and> 2 \<le> length ps"
proof -
  from assms obtain fnt where
    "ps = summaryPage inp # bodyPages fnt inp @
           [finalPage inp (PDFImage (QRDataUrl (qrPayload inp 0))) (length (bodyPages fnt inp) + 2)]"
    by (rule makeSealedPdf_pages_Inr)
  then show ?thesis by (simp add: imagePayloads_finalPage qrPayload_def)
qed

text \<open>
  C1: on the end-to-end scenario the document has 2 pages, and the one QR image on its
  last page encodes a payload whose \<open>pageCount\<close> is 0: the data URL is generated before
  any page exists and is not generated again after \<open>qrPayload.pageCount\<close> is assigned.
\<close>

theorem qr_page_count_not_corrected:
  "(case makeSealedPdf_pages plain_libs scenario_input of
      Inl e \<Rightarrow> None
    | Inr ps \<Rightarrow> Some (length ps, map qr_pageCount (imagePayloads (last ps)))) = Some (2, [0])"
proof -
  have "bodyPages fixed_pitch scenario_input = []"
    by (simp add: bodyPages_events scenario_input_def)
  then show ?thesis
    by (simp add: plain_libs_pages imagePayloads_finalPage qrPayload_def)
qed

lemma footer_length: "length (footerText @ hashText (Some (take 16 h))) \<le> 67"
  by (simp add: footerText_def trade_mark_def hashText_def)

lemma summaryPage_footer: "summaryPage inp \<noteq> [] \<and> hd (summaryPage inp) = footerOp (partialHash inp)"
  by (simp add: summaryPage_lines summaryHead_def drawPageFurniture_eq)

lemma finalPage_footer: "finalPage inp img n \<noteq> [] \<and> hd (finalPage inp img n) = footerOp (partialHash inp)"
  unfolding finalPage_def by (subst meta_forEach_snd) (simp add: drawPageFurniture_eq)

lemma bodyPages_footer: "\<forall>p\<in>set (bodyPages fnt inp). p \<noteq> [] \<and> hd p = footerOp (partialHash inp)"
proof (cases "messagesHtml inp")
  case None
  then show ?thesis by (simp add: bodyPages_events)
next
  case (Some html)
  have "\<forall>p\<in>set (pages (foldl (place (partialHash inp)) (bodyStart (partialHash inp)) es)).
          p \<noteq> [] \<and> hd p = footerOp (partialHash inp)" for es
    by (rule foldl_place_footers) (simp_all add: bodyStart_def drawPageFurniture_eq)
  with Some show ?thesis by (simp add: bodyPages_events)
qed

text \<open>
  C9: every page of the document starts with the footer drawn at (50, 40) in size 8. Its
  text is the static label alone when there is no evidence; when the first evidence
  digest is a SHA-512 hex digest (128 characters) the label is followed by
  \<open>| Evidence Hash:\<close>, exactly the first 16 characters of that digest and an ellipsis,
  and the footer does not contain the full digest.
\<close>

theorem footer_on_every_page:
  assumes "makeSealedPdf_pages L inp = Inr ps"
  shows "(\<forall>p\<in>set ps. p \<noteq> [] \<and>
            hd p = DrawText (footerText @ hashText (partialHash inp)) 50 40 8) \<and>
         (evidence inp = [] \<longrightarrow> hashText (partialHash inp) = []) \<and>
         (\<forall>e es. evidence inp = e # es \<and> length (sha512 e) = 128 \<longrightarrow>
            hashText (partialHash inp) = '' | Evidence Hash: '' @ take 16 (sha512 e) @ ''...'' \<and>
            length (take 16 (sha512 e)) = 16 \<and>
            \<not> sublist (sha512 e) (footerText @ hashText (partialHash inp)))"
proof -
  from assms obtain fnt where
    ps: "ps = summaryPage inp # bodyPages fnt inp @
           [finalPage inp (PDFImage (QRDataUrl (qrPayload inp 0))) (length (bodyPages fnt inp) + 2)]"
    by (rule makeSealedPdf_pages_Inr)
  have 1: "\<forall>p\<in>set ps. p \<noteq> [] \<and> hd p = DrawText (footerText @ hashText (partialHash inp)) 50 40 8"
    unfolding ps footerOp_def [symmetric]
    using summaryPage_footer [of inp] bodyPages_footer [of fnt inp] finalPage_footer [of inp]
    by simp
  have 2: "evidence inp = [] \<longrightarrow> hashText (partialHash inp) = []"
    by (simp add: hashText_def partialHash_def primaryHash_def)
  have 3: "hashText (partialHash inp) = '' | Evidence Hash: '' @ take 16 (sha512 e) @ ''...'' \<and>
           length (take 16 (sha512 e)) = 16 \<and>
           \<not> sublist (sha512 e) (footerText @ hashText (partialHash inp))"
    if "evidence inp = e # es" and "length (sha512 e) = 128" for e es
  proof -
    from that have ne: "sha512 e \<noteq> []" by auto
    with that have ph: "partialHash inp = Some (take 16 (sha512 e))"
      by (simp add: partialHash_def primaryHash_def)
    from that(2) have "take 16 (sha512 e) \<noteq> []" by auto
    then have h: "hashText (partialHash inp) = '' | Evidence Hash: '' @ take 16 (sha512 e) @ ''...''"
      by (simp add: ph hashText_def)
    have "\<not> sublist (sha512 e) (footerText @ hashText (partialHash inp))"
    proof
      assume "sublist (sha512 e) (footerText @ hashText (partialHash inp))"
      then have "length (sha512 e) \<le> length (footerText @ hashText (partialHash inp))"
        by (rule sublist_length_le)
      with footer_length [of "sha512 e"] that(2) show False by (simp add: ph)
    qed
    with h that(2) show ?thesis by simp
  qed
  from 1 2 3 show ?thesis by blast
qed

text \<open>The footer of both pages of the end-to-end scenario.\<close>

theorem footer_on_every_page_witness:
  "hd (summaryPage scenario_input) =
     DrawText (footerText @ '' | Evidence Hash: aaaaaaaaaaaaaaaa...'') 50 40 8 \<and>
   hd (finalPage scenario_input (PDFImage (QRDataUrl (qrPayload scenario_input 0))) 2) =
     DrawText (footerText @ '' | Evidence Hash: aaaaaaaaaaaaaaaa...'') 50 40 8"
proof -
  have b: "bodyPages fixed_pitch scenario_input = []"
    by (simp add: bodyPages_events scenario_input_def)
  have p: "makeSealedPdf_pages plain_libs scenario_input =
             Inr [summaryPage scenario_input,
                  finalPage scenario_input (PDFImage (QRDataUrl (qrPayload scenario_input 0))) 2]"
    by (simp add: plain_libs_pages b numeral_2_eq_2)
  have e: "evidence scenario_input =
             \<lparr>name = ''a.txt'', sha512 = replicate 128 CHR ''a''\<rparr> # [] \<and>
           length (sha512 \<lparr>name = ''a.txt'', sha512 = replicate 128 CHR ''a''\<rparr>) = 128"
    by (simp add: scenario_input_def)
  note t = footer_on_every_page [OF p]
  from conjunct2 [OF conjunct2 [OF t], rule_format, OF e]
  have "hashText (partialHash scenario_input) = '' | Evidence Hash: aaaaaaaaaaaaaaaa...''"
    by (simp add: numeral_eq_Suc)
  with conjunct1 [OF t] show ?thesis by simp
qed

lemma drawn_bodyStart: "drawn (pages (bodyStart ph)) = {footerOp ph, headingOp}"
  by (auto simp: bodyStart_def drawn_single drawPageFurniture_eq headingOp_def)

lemma bodyPages_ops:
  assumes "messagesHtml inp = Some html" and "d \<in> drawn (bodyPages fnt inp)"
  shows "d = footerOp (partialHash inp) \<or> d = headingOp \<or>
         (\<exists>l y. Line l \<in> set (concat (map (paragraph_events (\<lambda>s. fnt s fontSize))
                                           (split_on CHR 0x0A html))) \<and>
                d = DrawText l x y fontSize \<and> bottomMargin \<le> y)"
proof (cases "html = []")
  case True
  with assms show ?thesis by (simp add: bodyPages_events drawn_def)
next
  case False
  with assms have "d \<in> drawn (pages (foldl (place (partialHash inp)) (bodyStart (partialHash inp))
      (concat (map (paragraph_events (\<lambda>s. fnt s fontSize)) (split_on CHR 0x0A html)))))"
    by (simp add: bodyPages_events)
  from foldl_place_ops [OF _ this] show ?thesis
    by (auto simp: drawn_bodyStart) (simp add: bodyStart_def)
qed

lemma bodyPages_no_body: "messagesHtml inp = None \<Longrightarrow> bodyPages fnt inp = []"
  by (simp add: bodyPages_events)




lemma butlast_tl_pages: "butlast (tl (s # bs @ [f])) = bs"
  by simp

text \<open>
  C10: on every body page (every page between the summary page and the metadata page)
  each text drawn in the body font size is at a vertical coordinate of at least the bottom
  margin 80; indeed everything drawn there is the footer, the heading of the first body
  page, or a body line at \<open>x = 50\<close> in size 10 with \<open>y \<ge> 80\<close>. Flushes on
  overflow and the flush of the last line of a paragraph are both covered.
\<close>

theorem body_lines_above_bottom_margin:
  assumes "makeSealedPdf_pages L inp = Inr ps"
  shows "\<forall>p\<in>set (butlast (tl ps)).
           (\<forall>l tx ty. DrawText l tx ty fontSize \<in> set p \<longrightarrow> bottomMargin \<le> ty) \<and>
           (\<forall>d\<in>set p.
              d = DrawText (footerText @ hashText (partialHash inp)) 50 40 8 \<or>
              d = DrawText ''Conversation Excerpt:'' 50 (height - 80) 12 \<or>
              (\<exists>l ty. d = DrawText l x ty fontSize \<and> bottomMargin \<le> ty))"
proof -
  from assms obtain fnt where
    ps: "ps = summaryPage inp # bodyPages fnt inp @
           [finalPage inp (PDFImage (QRDataUrl (qrPayload inp 0))) (length (bodyPages fnt inp) + 2)]"
    by (rule makeSealedPdf_pages_Inr)
  have b: "butlast (tl ps) = bodyPages fnt inp" unfolding ps by (rule butlast_tl_pages)
  have ops: "d = footerOp (partialHash inp) \<or> d = headingOp \<or>
             (\<exists>l ty. d = DrawText l x ty fontSize \<and> bottomMargin \<le> ty)"
    if "p \<in> set (bodyPages fnt inp)" and "d \<in> set p" for p d
  proof (cases "messagesHtml inp")
    case None
    with that show ?thesis by (simp add: bodyPages_no_body)
  next
    case (Some html)
    from that have "d \<in> drawn (bodyPages fnt inp)" by (auto simp: drawn_def)
    from bodyPages_ops [OF Some this] show ?thesis by blast
  qed
  have "bottomMargin \<le> ty" if "p \<in> set (bodyPages fnt inp)" and "DrawText l tx ty fontSize \<in> set p"
    for p l tx ty
    using ops [OF that] by (auto simp: footerOp_def headingOp_def fontSize_def)
  with ops show ?thesis unfolding b footerOp_def headingOp_def by blast
qed

lemma hello_pages:
  "bodyPages fixed_pitch (with_body ''hello world'') =
     [[footerOp (partialHash scenario_input), headingOp, DrawText ''hello world'' 50 (height - 100) 10]]"
  by (simp add: bodyPages_events with_body_def paragraph_events_def trim_def is_js_space_def
        fixed_pitch_def fontSize_def maxWidth_def width_def x_def bodyStart_def drawLine_def
        breakIfBelow_def drawOnCurrentPage_def drawPageFurniture_eq headingOp_def
        bottomMargin_def lineHeight_def height_def partialHash_def primaryHash_def scenario_input_def)

text \<open>The body text \<open>hello world\<close> is drawn on the first body page at \<open>height - 100\<close>.\<close>

theorem body_lines_above_bottom_margin_witness:
  "\<exists>ps. makeSealedPdf_pages plain_libs (with_body ''hello world'') = Inr ps \<and>
         DrawText ''hello world'' 50 (height - 100) fontSize \<in> set (hd (butlast (tl ps))) \<and>
         bottomMargin \<le> height - 100"
proof -
  let ?ps = "summaryPage (with_body ''hello world'') #
             bodyPages fixed_pitch (with_body ''hello world'') @
             [finalPage (with_body ''hello world'')
                (PDFImage (QRDataUrl (qrPayload (with_body ''hello world'') 0)))
                (length (bodyPages fixed_pitch (with_body ''hello world'')) + 2)]"
  have p: "makeSealedPdf_pages plain_libs (with_body ''hello world'') = Inr ?ps"
    by (rule plain_libs_pages)
  have b: "butlast (tl ?ps) = bodyPages fixed_pitch (with_body ''hello world'')"
    by (rule butlast_tl_pages)
  have d: "DrawText ''hello world'' 50 (height - 100) fontSize \<in> set (hd (butlast (tl ?ps)))"
    unfolding b by (simp add: hello_pages fontSize_def)
  have "hd (butlast (tl ?ps)) \<in> set (butlast (tl ?ps))"
    unfolding b by (simp add: hello_pages)
  with body_lines_above_bottom_margin [OF p] d have "bottomMargin \<le> height - 100"
    by blast
  with p d show ?thesis by blast
qed










section \<open>Failure of the construction\<close>

text \<open>
  C8: a rejection of the font embedding, of the image embedding or of the serialisation
  is the result of \<open>makeSealedPdf\<close>, unchanged: nothing catches it and nothing is retried.
  Bytes are returned only when all of them resolved, and then they are the serialisation
  of the complete page sequence, from the summary page to the metadata page. The caller
  \<open>performSealingProcess\<close> awaits the builder outside every \<open>try\<close>, so the rejection is
  its result as well.
\<close>

theorem construction_failure_is_fatal:
  "(create_error L = None \<and> embedFont_result L = Inl e \<longrightarrow> makeSealedPdf L inp = Inl e) \<and>
   (create_error L = None \<and> embedFont_result L = Inr fnt \<and>
    toDataURL_error L (qrPayload inp 0) = None \<and>
    embedPng_error L (QRDataUrl (qrPayload inp 0)) = Some e \<longrightarrow> makeSealedPdf L inp = Inl e) \<and>
   (makeSealedPdf_pages L inp = Inr ps \<and> save_result L ps = Inl e \<longrightarrow> makeSealedPdf L inp = Inl e) \<and>
   (makeSealedPdf L inp = Inr bytes \<longrightarrow>
      (\<exists>fnt ps. embedFont_result L = Inr fnt \<and>
         embedPng_error L (QRDataUrl (qrPayload inp 0)) = None \<and>
         makeSealedPdf_pages L inp = Inr ps \<and> save_result L ps = Inr bytes \<and>
         ps = summaryPage inp # bodyPages fnt inp @
              [finalPage inp (PDFImage (QRDataUrl (qrPayload inp 0))) (length (bodyPages fnt inp) + 2)])) \<and>
   (findIndex (\<lambda>m. msg_id m = messageId) messages = Some i \<and>
    makeSealedPdf (pdf_libs E) (sealingRequest E (messages ! i) uploadedFiles) = Inl e \<longrightarrow>
    performSealingProcess E messages uploadedFiles messageId = Inl e)"
proof -
  have 1: "makeSealedPdf L inp = Inl e" if "create_error L = None" "embedFont_result L = Inl e"
    using that by (simp add: makeSealedPdf_def makeSealedPdf_pages_def)
  have 2: "makeSealedPdf L inp = Inl e"
    if "create_error L = None" "embedFont_result L = Inr fnt"
      "toDataURL_error L (qrPayload inp 0) = None"
      "embedPng_error L (QRDataUrl (qrPayload inp 0)) = Some e"
    using that
    by (simp add: makeSealedPdf_def makeSealedPdf_pages_def QRCode_toDataURL_def embedPng_def Let_def)
  have 3: "makeSealedPdf L inp = Inl e" if "makeSealedPdf_pages L inp = Inr ps" "save_result L ps = Inl e"
    using that by (simp add: makeSealedPdf_def)
  have 4: "\<exists>fnt ps. embedFont_result L = Inr fnt \<and>
         embedPng_error L (QRDataUrl (qrPayload inp 0)) = None \<and>
         makeSealedPdf_pages L inp = Inr ps \<and> save_result L ps = Inr bytes \<and>
         ps = summaryPage inp # bodyPages fnt inp @
              [finalPage inp (PDFImage (QRDataUrl (qrPayload inp 0))) (length (bodyPages fnt inp) + 2)]"
    if r: "makeSealedPdf L inp = Inr bytes"
  proof -
    from r obtain ps where ps: "makeSealedPdf_pages L inp = Inr ps" and sv: "save_result L ps = Inr bytes"
      by (auto simp: makeSealedPdf_def split: sum.splits)
    from ps obtain fnt where "embedFont_result L = Inr fnt"
      "embedPng_error L (QRDataUrl (qrPayload inp 0)) = None"
      "ps = summaryPage inp # bodyPages fnt inp @
           [finalPage inp (PDFImage (QRDataUrl (qrPayload inp 0))) (length (bodyPages fnt inp) + 2)]"
      by (rule makeSealedPdf_pages_Inr)
    with ps sv show ?thesis by blast
  qed
  have 5: "performSealingProcess E messages uploadedFiles messageId = Inl e"
    if "findIndex (\<lambda>m. msg_id m = messageId) messages = Some i"
      "makeSealedPdf (pdf_libs E) (sealingRequest E (messages ! i) uploadedFiles) = Inl e"
    using that by (simp add: performSealingProcess_def Let_def)
  from 1 2 3 4 5 show ?thesis by blast
qed

text \<open>
  The scenario with a font, an image and a serialiser that reject, each in turn, and the
  seal operation of the example case with the rejecting font.
\<close>

theorem construction_failure_is_fatal_witness:
  "makeSealedPdf failing_font scenario_input = Inl (Rejected ''font'') \<and>
   makeSealedPdf failing_image scenario_input = Inl (Rejected ''image'') \<and>
   makeSealedPdf failing_save scenario_input = Inl (Rejected ''save'') \<and>
   (\<exists>ps. makeSealedPdf_pages plain_libs scenario_input = Inr ps \<and>
         save_result plain_libs ps = Inr [6, 8]) \<and>
   performSealingProcess (example_env\<lparr>pdf_libs := failing_font\<rparr>) example_messages example_files
     ''ai-seal-1'' = Inl (Rejected ''font'')"
proof -
  have 1: "makeSealedPdf failing_font inp = Inl (Rejected ''font'')" for inp
    using conjunct1 [OF construction_failure_is_fatal
        [where L = failing_font and e = "Rejected ''font''" and inp = inp]]
    by (simp add: failing_font_def plain_libs_def)
  have 2: "makeSealedPdf failing_image scenario_input = Inl (Rejected ''image'')"
    using conjunct1 [OF conjunct2 [OF construction_failure_is_fatal
        [where L = failing_image and e = "Rejected ''image''" and inp = scenario_input
           and fnt = fixed_pitch]]]
    by (simp add: failing_image_def plain_libs_def)
  obtain ps where ps: "makeSealedPdf_pages failing_save scenario_input = Inr ps"
    using makeSealedPdf_pages_ok [of failing_save fixed_pitch scenario_input]
    by (auto simp: failing_save_def plain_libs_def)
  have 3: "makeSealedPdf failing_save scenario_input = Inl (Rejected ''save'')"
    using conjunct1 [OF conjunct2 [OF conjunct2 [OF construction_failure_is_fatal
        [where L = failing_save and e = "Rejected ''save''" and inp = scenario_input
           and ps = ps]]]] ps
    by (simp add: failing_save_def)
  have b: "bodyPages fixed_pitch scenario_input = []"
    by (simp add: bodyPages_events scenario_input_def)
  have "makeSealedPdf plain_libs scenario_input = Inr [6, 8]"
    by (simp add: makeSealedPdf_def plain_libs_pages b)
       (simp add: plain_libs_def summaryPage_lines summaryHead_def finalPage_def
          drawPageFurniture_def scenario_input_def)
  with conjunct1 [OF conjunct2 [OF conjunct2 [OF conjunct2 [OF construction_failure_is_fatal
        [where L = plain_libs and inp = scenario_input and bytes = "[6, 8]"]]]]]
  have 4: "\<exists>ps. makeSealedPdf_pages plain_libs scenario_input = Inr ps \<and>
         save_result plain_libs ps = Inr [6, 8]" by blast
  have i: "findIndex (\<lambda>m. msg_id m = ''ai-seal-1'') example_messages = Some 1"
    by (simp add: example_messages_def)
  have 5: "performSealingProcess (example_env\<lparr>pdf_libs := failing_font\<rparr>) example_messages
             example_files ''ai-seal-1'' = Inl (Rejected ''font'')"
    using conjunct2 [OF conjunct2 [OF conjunct2 [OF conjunct2 [OF construction_failure_is_fatal
        [where E = "example_env\<lparr>pdf_libs := failing_font\<rparr>" and messages = example_messages
           and uploadedFiles = example_files and messageId = "''ai-seal-1''" and i = 1
           and e = "Rejected ''font''"]]]]] i 1
    by simp
  from 1 2 3 4 5 show ?thesis by blast
qed

section \<open>The Hasher and the self-referential digest\<close>

lemma digit_char_hex: "d < 16 \<Longrightarrow> digit_char d \<in> set ''0123456789abcdef''"
  unfolding digit_char_def by (rule nth_mem) simp

lemma toString16_small: "n < 16 \<Longrightarrow> toString16 n = [digit_char n]"
  by simp

lemma toString16_byte:
  assumes "n < 256"
  shows "padStart 2 CHR ''0'' (toString16 n) = [digit_char (n div 16), digit_char (n mod 16)]"
proof (cases "n < 16")
  case True
  then show ?thesis by (simp add: padStart_def digit_char_def)
next
  case False
  from assms have "n div 16 < 16" by simp
  then have "toString16 (n div 16) = [digit_char (n div 16)]" by (rule toString16_small)
  with False have "toString16 n = [digit_char (n div 16), digit_char (n mod 16)]"
    by (subst toString16.simps) simp
  then show ?thesis by (simp add: padStart_def)
qed

lemma unat_byte_less: "unat (b :: byte) < 256"
  using unsigned_less [of b, where ?'a = nat] by simp

lemma stringToHash_bytes:
  "stringToHash digest data =
     concat (map (\<lambda>b. [digit_char (unat b div 16), digit_char (unat b mod 16)]) (digest data))"
  by (simp add: stringToHash_def toString16_byte unat_byte_less del: toString16.simps)

text \<open>
  C7: \<open>stringToHash\<close> has no failure of its own. Whenever the platform digest returns 64
  bytes (as SHA-512 does for every input, the empty one included), the result has exactly
  128 characters, all of them among \<open>0123456789abcdef\<close>, two per digest byte: the high
  and the low hexadecimal digit. It is a function of the digest bytes alone.
\<close>

theorem stringToHash_hex_digest:
  assumes "length (digest data) = 64"
  shows "length (stringToHash digest data) = 128 \<and>
         set (stringToHash digest data) \<subseteq> set ''0123456789abcdef'' \<and>
         stringToHash digest data =
           concat (map (\<lambda>b. [digit_char (unat b div 16), digit_char (unat b mod 16)]) (digest data)) \<and>
         (digest data = digest data' \<longrightarrow> stringToHash digest data = stringToHash digest data')"
proof -
  have 1: "length (stringToHash digest data) = 128"
    using assms by (simp add: stringToHash_bytes length_concat o_def sum_list_triv)
  have 2: "set (stringToHash digest data) \<subseteq> set ''0123456789abcdef''"
  proof
    fix c assume "c \<in> set (stringToHash digest data)"
    then have "\<exists>b::byte. c = digit_char (unat b div 16) \<or> c = digit_char (unat b mod 16)"
      by (auto simp: stringToHash_bytes)
    then obtain b :: byte where "c = digit_char (unat b div 16) \<or> c = digit_char (unat b mod 16)" ..
    moreover have "unat b div 16 < 16" using unat_byte_less [of b] by simp
    moreover have "unat b mod 16 < 16" by simp
    ultimately show "c \<in> set ''0123456789abcdef''" using digit_char_hex by blast
  qed
  have 3: "digest data = digest data' \<longrightarrow> stringToHash digest data = stringToHash digest data'"
    by (simp add: stringToHash_def)
  from 1 2 3 stringToHash_bytes [of digest data] show ?thesis by blast
qed

text \<open>The zero-length input, with the SHA-512 digest of the empty sequence.\<close>

theorem stringToHash_hex_digest_witness:
  "length (stringToHash example_digest []) = 128 \<and>
   stringToHash example_digest [] =
     ''cf83e1357eefb8bdf1542850d66d8007d620e4050b5715dc83f4a921d36ce9ce47d0d13c5d85f2b0ff8318d2877eec2f63b931bd47417a81a538327af927da3e''"
proof -
  have l: "length (example_digest []) = 64" by (simp add: example_digest_def sha512_empty_def)
  note t = stringToHash_hex_digest [where digest = example_digest and data = "[]" and data' = "[]", OF l]
  have "stringToHash example_digest [] =
     ''cf83e1357eefb8bdf1542850d66d8007d620e4050b5715dc83f4a921d36ce9ce47d0d13c5d85f2b0ff8318d2877eec2f63b931bd47417a81a538327af927da3e''"
    by (simp only: conjunct1 [OF conjunct2 [OF conjunct2 [OF t]]])
       (simp add: example_digest_def sha512_empty_def digit_char_def)
  with conjunct1 [OF t] show ?thesis by simp
qed

lemma findIndex_Some: "findIndex P xs = Some i \<Longrightarrow> i < length xs \<and> P (xs ! i)"
proof (induction xs arbitrary: i)
  case Nil
  then show ?case by simp
next
  case (Cons a xs)
  then show ?case by (cases "P a") (auto simp: nth_Cons')
qed

text \<open>
  C2: when a seal operation resolves to a result, the bytes of the result are the bytes
  \<open>makeSealedPdf\<close> returned for the request of the sealed message, the hash of the result
  is \<open>stringToHash\<close> of exactly these bytes, and this hash is the text substituted for
  every occurrence of the hash placeholder, in the content returned and in the content
  stored in the message list.
\<close>

theorem substituted_hash_is_digest_of_returned_bytes:
  assumes "performSealingProcess E messages uploadedFiles messageId = Inr (messages', Some r)"
  shows "\<exists>i. findIndex (\<lambda>m. msg_id m = messageId) messages = Some i \<and> i < length messages \<and>
           makeSealedPdf (pdf_libs E) (sealingRequest E (messages ! i) uploadedFiles) =
             Inr (pdfBytes r) \<and>
           hash r = stringToHash (subtle_digest E) (pdfBytes r) \<and>
           updatedContent r =
             replaceAll firestorePlaceholder (firestoreId_or_NA (cloudAnchor r))
               (replaceAll cloudPlaceholder (storagePath_or_NA (cloudAnchor r))
                  (replaceAll hashPlaceholder (stringToHash (subtle_digest E) (pdfBytes r))
                     (content (messages ! i)))) \<and>
           content (messages' ! i) = updatedContent r \<and>
           sealingMetadata (messages' ! i) = Some (stringToHash (subtle_digest E) (pdfBytes r), cloudAnchor r)"
proof -
  from assms obtain i where i: "findIndex (\<lambda>m. msg_id m = messageId) messages = Some i"
    by (auto simp: performSealingProcess_def split: option.splits)
  then have len: "i < length messages" by (auto dest: findIndex_Some)
  from assms i obtain bytes where
    b: "makeSealedPdf (pdf_libs E) (sealingRequest E (messages ! i) uploadedFiles) = Inr bytes"
    by (auto simp: performSealingProcess_def Let_def split: sum.splits)
  from assms i b len show ?thesis
    by (auto simp: performSealingProcess_def Let_def)
qed

lemma example_request:
  "sealingRequest example_env (example_messages ! 1) example_files =
     scenario_input\<lparr>title := ''Sealed Document Manifest'', messagesHtml := Some []\<rparr>"
  by (simp add: sealingRequest_def example_env_def example_messages_def example_files_def
        scenario_input_def APP_VERSION_def sublist_Cons_right)

lemma example_bytes:
  "makeSealedPdf plain_libs (scenario_input\<lparr>title := ''Sealed Document Manifest'', messagesHtml := Some []\<rparr>)
     = Inr [6, 8]"
proof -
  let ?inp = "scenario_input\<lparr>title := ''Sealed Document Manifest'', messagesHtml := Some []\<rparr>"
  have b: "bodyPages fixed_pitch ?inp = []" by (simp add: bodyPages_events)
  show ?thesis
    by (simp add: makeSealedPdf_def plain_libs_pages b)
       (simp add: plain_libs_def summaryPage_lines summaryHead_def finalPage_def
          drawPageFurniture_def scenario_input_def)
qed

lemma replaceAll_no_first:
  "pat \<noteq> [] \<Longrightarrow> hd pat \<notin> set s \<Longrightarrow> replaceAll pat rep s = s"
proof (induction s)
  case Nil
  then show ?case by simp
next
  case (Cons c cs)
  then have "\<not> prefix pat (c # cs)" by (cases pat) auto
  with Cons show ?case by simp
qed

lemma example_hash:
  "stringToHash example_digest [6, 8] = concat (replicate 64 ''02'')"
  by (simp add: stringToHash_bytes example_digest_def digit_char_def)

text \<open>The example case: the manifest of two pages, its digest, and the updated content.\<close>

theorem substituted_hash_is_digest_of_returned_bytes_witness:
  "\<exists>ms r. performSealingProcess example_env example_messages example_files ''ai-seal-1'' =
             Inr (ms, Some r) \<and>
          pdfBytes r = [6, 8] \<and>
          hash r = concat (replicate 64 ''02'') \<and>
          updatedContent r = ''- Certified SHA-512 Hash: '' @ concat (replicate 64 ''02'')"
proof -
  have i: "findIndex (\<lambda>m. msg_id m = ''ai-seal-1'') example_messages = Some 1"
    by (simp add: example_messages_def)
  have req: "makeSealedPdf (pdf_libs example_env)
               (sealingRequest example_env (example_messages ! 1) example_files) = Inr [6, 8]"
    unfolding example_request by (simp add: example_env_def example_bytes)
  have "\<exists>ms r. performSealingProcess example_env example_messages example_files ''ai-seal-1'' =
             Inr (ms, Some r)"
    unfolding performSealingProcess_def
    by (simp only: i option.case Let_def req sum.case) blast
  then obtain ms r where p:
    "performSealingProcess example_env example_messages example_files ''ai-seal-1'' = Inr (ms, Some r)"
    by blast
  from substituted_hash_is_digest_of_returned_bytes [OF p] i
  have "makeSealedPdf (pdf_libs example_env)
          (sealingRequest example_env (example_messages ! 1) example_files) = Inr (pdfBytes r)"
    and h: "hash r = stringToHash (subtle_digest example_env) (pdfBytes r)"
    and u: "updatedContent r =
             replaceAll firestorePlaceholder (firestoreId_or_NA (cloudAnchor r))
               (replaceAll cloudPlaceholder (storagePath_or_NA (cloudAnchor r))
                  (replaceAll hashPlaceholder (stringToHash (subtle_digest example_env) (pdfBytes r))
                     (content (example_messages ! 1))))"
    by auto
  with req have b: "pdfBytes r = [6, 8]" by simp
  have d: "subtle_digest example_env = example_digest" by (simp add: example_env_def)
  from h b have h': "hash r = concat (replicate 64 ''02'')" by (simp add: d example_hash)
  have "updatedContent r = ''- Certified SHA-512 Hash: '' @ concat (replicate 64 ''02'')"
  proof -
    have "set (concat (replicate 64 ''02'')) \<subseteq> {CHR ''0'', CHR ''2''}" by auto
    then have n: "CHR ''['' \<notin> set (concat (replicate 64 ''02''))" by auto
    have r: "replaceAll (CHR ''['' # pat) rep (concat (replicate 64 ''02'')) =
             concat (replicate 64 ''02'')" for pat rep
      using n by (intro replaceAll_no_first) auto
    show ?thesis
      unfolding u b d example_hash
      by (simp add: example_messages_def hashPlaceholder_def cloudPlaceholder_def
            firestorePlaceholder_def r)
  qed
  with p b h' show ?thesis by blast
qed

end
